theory Spec2Isabelle
  imports Main "HOL-Library.Word"
begin

section \<open>The agent supervisor of magalix-agent (agent/agent.go, main.go)\<close>

text \<open>
  The supervisor owns three cancellable contexts, wires the callbacks of its
  collaborators, launches the Gateway, waits for the authorization and then launches
  the sources in an errgroup. The collaborators (Gateway, MetricsSource, EntitiesSource,
  AutomationExecutor, Auditor) are interface values: the model treats them as opaque,
  non-nil object references and records every call made on them in a trace. What a
  collaborator does when called is a parameter of the model (the environment).
\<close>

subsection \<open>Data\<close>

type_synonym error = string
  \<comment> \<open>a non-nil Go error, by its message; the nil error is \<open>None\<close> in \<open>error option\<close>\<close>

type_synonym uuid = "128 word"
  \<comment> \<open>uuid.UUID is an array of 16 bytes; its zero value is all zero\<close>

type_synonym ref = nat
  \<comment> \<open>a reference to a collaborator object (a non-nil interface or function value)\<close>

definition uuid_Nil :: uuid where
  "uuid_Nil = 0"

text \<open>time.Duration counts nanoseconds (package time of Go).\<close>

definition Nanosecond :: int where "Nanosecond = 1"
definition Microsecond :: int where "Microsecond = 1000 * Nanosecond"
definition Millisecond :: int where "Millisecond = 1000 * Microsecond"
definition Second :: int where "Second = 1000 * Millisecond"
definition Minute :: int where "Minute = 60 * Second"
definition Hour :: int where "Hour = 60 * Minute"

definition AuthorizationTimeoutDuration :: int where
  "AuthorizationTimeoutDuration = 2 * Hour"

text \<open>
  The contexts of one run of Start: \<open>allCtx\<close>, its children \<open>sourcesCtx\<close> and
  \<open>sinksCtx\<close>, and the context that errgroup.WithContext derives from \<open>allCtx\<close>
  (which Start discards: \<open>eg, _ := errgroup.WithContext(allCtx)\<close>).
\<close>

datatype token = AllCtx | SourcesCtx | SinksCtx | GroupCtx

fun children :: "token \<Rightarrow> token list" where
  "children AllCtx = [SourcesCtx, SinksCtx, GroupCtx]"
| "children SourcesCtx = []"
| "children SinksCtx = []"
| "children GroupCtx = []"

datatype task = GatewayT | EntitiesSourceT | MetricsSourceT | AutomationExecutorT | AuditorT

datatype setter =
    SetAutomationFeedbackHandler
  | SetAutomationHandler
  | SetMetricsHandler
  | SetDeltasHandler
  | SetEntitiesResyncHandler
  | SetAuditResultHandler
  | SetAuditCommandHandler
  | SetConstraintsHandler
  | SetRestartHandler
  | SetChangeLogLevelHandler

text \<open>The function values handed over as callbacks: methods of the agent, or methods
  of a collaborator (bound to that collaborator).\<close>

datatype callback =
    handleAutomationFeedback
  | SubmitAutomation ref
  | handleMetrics
  | handleDeltas
  | handleResync
  | handleAuditResult
  | HandleAuditCommand ref
  | HandleConstraints ref
  | handleRestart
  | handleLogLevelChange

datatype event =
    Register ref setter callback
      \<comment> \<open>a Set...Handler call on the collaborator, with the callback\<close>
  | Go task ref token
      \<comment> \<open>eg.Go of the collaborator's Start with the context\<close>
  | WaitAuthorization ref int "error option"
      \<comment> \<open>Gateway.WaitAuthorization with the timeout, and what it returned\<close>
  | GroupWait
      \<comment> \<open>eg.Wait is entered\<close>
  | Return task "error option"
      \<comment> \<open>the function of a goroutine of the group returned\<close>
  | Cancel token
      \<comment> \<open>the cancel function of the context is called\<close>

record Agent =
  AccountID :: uuid
  ClusterID :: uuid
  AgentID :: uuid
  MetricsSource :: ref
  EntitiesSource :: ref
  AutomationExecutor :: ref
  Gateway :: ref
  Auditor :: ref
  EnableMetrics :: bool
  EnableAutomation :: bool
  changeLogLevel :: ref
  cancelAll :: "token option"
  cancelSources :: "token option"
  cancelSinks :: "token option"

text \<open>
  The part of the world that Start and Stop touch: which contexts are done, the calls
  made so far, and the errgroup (its first error and the goroutines that have not
  returned, each with the context its task was given).
\<close>

record world =
  cancelled :: "token set"
  trace :: "event list"
  eg_err :: "error option"
  running :: "(task \<times> token) list"

text \<open>
  What the environment decides in a run. A task either returns by itself
  (\<open>Returns\<close>, when the schedule says so) or blocks until its context is done and
  returns then (\<open>UntilDone\<close>). The schedules list what happens while Start is blocked:
  a task returning by itself, or another goroutine calling a stop method of the agent.
\<close>

datatype behaviour = Returns "error option" | UntilDone "error option"

datatype step = TaskReturns task | CallStop | CallStopSources | CallStopSinks

record env =
  auth :: "error option"
  behaviour :: "task \<Rightarrow> behaviour"
  during_auth :: "step list"
  schedule :: "step list"

datatype outcome = Returned "error option" | Blocked
  \<comment> \<open>\<open>Blocked\<close>: eg.Wait never returns\<close>

subsection \<open>Contexts and the errgroup\<close>

definition log :: "event \<Rightarrow> world \<Rightarrow> world" where
  "log ev w = w\<lparr>trace := trace w @ [ev]\<rparr>"

text \<open>context.WithCancel: a fresh context, done from the start when its parent is.\<close>

definition WithCancel :: "token option \<Rightarrow> token \<Rightarrow> world \<Rightarrow> world" where
  "WithCancel parent t w =
     (case parent of
        None \<Rightarrow> w\<lparr>cancelled := cancelled w - {t}\<rparr>
      | Some p \<Rightarrow>
          (if p \<in> cancelled w then w\<lparr>cancelled := insert t (cancelled w)\<rparr>
           else w\<lparr>cancelled := cancelled w - {t}\<rparr>))"

text \<open>Calling a cancel function: the context and its children are done; once done,
  a context stays done.\<close>

definition do_cancel :: "token \<Rightarrow> world \<Rightarrow> world" where
  "do_cancel t w =
     w\<lparr>cancelled := cancelled w \<union> insert t (set (children t)),
       trace := trace w @ [Cancel t]\<rparr>"

text \<open>errgroup.WithContext: an empty group over a child of the given context.\<close>

definition eg_WithContext :: "token \<Rightarrow> world \<Rightarrow> world" where
  "eg_WithContext p w = (WithCancel (Some p) GroupCtx w)\<lparr>eg_err := None, running := []\<rparr>"

definition eg_Go :: "task \<Rightarrow> ref \<Rightarrow> token \<Rightarrow> world \<Rightarrow> world" where
  "eg_Go t r c w = (log (Go t r c) w)\<lparr>running := running w @ [(t, c)]\<rparr>"

text \<open>
  The goroutine that eg.Go starts, once its function has returned \<open>r\<close>: the first
  non-nil error is kept and the group's context is cancelled (errOnce).
\<close>

definition task_return :: "task \<times> token \<Rightarrow> error option \<Rightarrow> world \<Rightarrow> world" where
  "task_return p r w =
     (let w1 = (log (Return (fst p) r) w)\<lparr>running := remove1 p (running w)\<rparr>
      in if r \<noteq> None \<and> eg_err w = None
         then (do_cancel GroupCtx w1)\<lparr>eg_err := r\<rparr>
         else w1)"

fun result :: "behaviour \<Rightarrow> error option" where
  "result (Returns r) = r"
| "result (UntilDone r) = r"

definition releasable :: "env \<Rightarrow> world \<Rightarrow> task \<times> token \<Rightarrow> bool" where
  "releasable e w p =
     (case behaviour e (fst p) of
        UntilDone r \<Rightarrow> snd p \<in> cancelled w
      | Returns r \<Rightarrow> False)"

text \<open>Every task that waits for its context returns once the context is done.\<close>

function drain :: "env \<Rightarrow> world \<Rightarrow> world" where
  "drain e w =
     (case find (releasable e w) (running w) of
        None \<Rightarrow> w
      | Some p \<Rightarrow> drain e (task_return p (result (behaviour e (fst p))) w))"
  by pat_completeness auto

termination
proof (relation "measure (\<lambda>(e, w). length (running w))")
  show "wf (measure (\<lambda>(e, w). length (running w)))"
    by simp
next
  fix e :: env and w :: world and p :: "task \<times> token"
  assume "find (releasable e w) (running w) = Some p"
  then have "p \<in> set (running w)"
    by (auto simp: find_Some_iff)
  then have "length (remove1 p (running w)) < length (running w)"
    using length_pos_if_in_set [of p "running w"] by (simp add: length_remove1)
  then show "((e, task_return p (result (behaviour e (fst p))) w), (e, w))
      \<in> measure (\<lambda>(e, w). length (running w))"
    by (simp add: task_return_def Let_def log_def do_cancel_def)
qed

declare drain.simps [simp del]

subsection \<open>The stop methods\<close>

text \<open>
  Each returns the error of the Go method (always nil), the agent and the world after
  the call. A nil cancel function is \<open>None\<close>; a stored one is the context it cancels.
\<close>

definition stopSources :: "Agent \<Rightarrow> world \<Rightarrow> error option \<times> Agent \<times> world" where
  "stopSources a w =
     (case cancelSources a of
        None \<Rightarrow> (None, a, w)
      | Some t \<Rightarrow> (None, a\<lparr>cancelSources := None\<rparr>, do_cancel t w))"

definition stopSinks :: "Agent \<Rightarrow> world \<Rightarrow> error option \<times> Agent \<times> world" where
  "stopSinks a w =
     (case cancelSinks a of
        None \<Rightarrow> (None, a, w)
      | Some t \<Rightarrow> (None, a\<lparr>cancelSinks := None\<rparr>, do_cancel t w))"

definition Stop :: "Agent \<Rightarrow> world \<Rightarrow> error option \<times> Agent \<times> world" where
  "Stop a w =
     (case cancelAll a of
        None \<Rightarrow> (None, a, w)
      | Some t \<Rightarrow> (None, a\<lparr>cancelAll := None\<rparr>, do_cancel t w))"

subsection \<open>What happens while Start is blocked\<close>

fun do_step :: "env \<Rightarrow> step \<Rightarrow> Agent \<times> world \<Rightarrow> Agent \<times> world" where
  "do_step e (TaskReturns t) (a, w) =
     (case (map_of (running w) t, behaviour e t) of
        (Some c, Returns r) \<Rightarrow> (a, task_return (t, c) r w)
      | _ \<Rightarrow> (a, w))"
| "do_step e CallStop (a, w) = snd (Stop a w)"
| "do_step e CallStopSources (a, w) = snd (stopSources a w)"
| "do_step e CallStopSinks (a, w) = snd (stopSinks a w)"

fun run_schedule :: "env \<Rightarrow> step list \<Rightarrow> Agent \<times> world \<Rightarrow> Agent \<times> world" where
  "run_schedule e [] (a, w) = (a, drain e w)"
| "run_schedule e (s # ss) (a, w) = run_schedule e ss (do_step e s (a, drain e w))"

text \<open>
  eg.Wait: blocks until every goroutine of the group has returned, then cancels the
  group's context and returns the first error. When a goroutine never returns, neither
  does Wait.
\<close>

definition eg_Wait :: "env \<Rightarrow> Agent \<times> world \<Rightarrow> outcome \<times> Agent \<times> world" where
  "eg_Wait e aw =
     (let (a1, w1) = run_schedule e (schedule e) (fst aw, log GroupWait (snd aw))
      in if running w1 = [] then (Returned (eg_err w1), a1, do_cancel GroupCtx w1)
         else (Blocked, a1, w1))"

subsection \<open>New and Start\<close>

definition New :: "ref \<Rightarrow> ref \<Rightarrow> ref \<Rightarrow> ref \<Rightarrow> ref \<Rightarrow> ref \<Rightarrow> bool \<Rightarrow> bool \<Rightarrow> Agent" where
  "New metricsSource entitiesSource automationExecutor gateway logLevelHandler auditor
       enableMetrics enableAutomation =
     \<lparr>AccountID = uuid_Nil,
      ClusterID = uuid_Nil,
      AgentID = uuid_Nil,
      MetricsSource = metricsSource,
      EntitiesSource = entitiesSource,
      AutomationExecutor = automationExecutor,
      Gateway = gateway,
      Auditor = auditor,
      EnableMetrics = enableMetrics,
      EnableAutomation = enableAutomation,
      changeLogLevel = logLevelHandler,
      cancelAll = None,
      cancelSources = None,
      cancelSinks = None\<rparr>"

text \<open>Lines 62 to 69 of agent.go: the three contexts, and their cancel functions
  stored in the agent.\<close>

definition make_contexts :: "Agent \<times> world \<Rightarrow> Agent \<times> world" where
  "make_contexts aw =
     (let w1 = WithCancel None AllCtx (snd aw);
          a1 = (fst aw)\<lparr>cancelAll := Some AllCtx\<rparr>;
          w2 = WithCancel (Some AllCtx) SourcesCtx w1;
          a2 = a1\<lparr>cancelSources := Some SourcesCtx\<rparr>;
          w3 = WithCancel (Some AllCtx) SinksCtx w2;
          a3 = a2\<lparr>cancelSinks := Some SinksCtx\<rparr>
      in (a3, w3))"

text \<open>Lines 71 to 89: the handlers, in the order of the source.\<close>

definition wiring :: "Agent \<Rightarrow> event list" where
  "wiring a =
     (if EnableAutomation a
      then [Register (AutomationExecutor a) SetAutomationFeedbackHandler handleAutomationFeedback,
            Register (Gateway a) SetAutomationHandler (SubmitAutomation (AutomationExecutor a))]
      else [])
     @ (if EnableMetrics a
        then [Register (MetricsSource a) SetMetricsHandler handleMetrics]
        else [])
     @ [Register (EntitiesSource a) SetDeltasHandler handleDeltas,
        Register (EntitiesSource a) SetEntitiesResyncHandler handleResync,
        Register (Auditor a) SetAuditResultHandler handleAuditResult,
        Register (Gateway a) SetAuditCommandHandler (HandleAuditCommand (Auditor a)),
        Register (Gateway a) SetConstraintsHandler (HandleConstraints (Auditor a)),
        Register (Gateway a) SetRestartHandler handleRestart,
        Register (Gateway a) SetChangeLogLevelHandler handleLogLevelChange]"

definition wire :: "Agent \<Rightarrow> world \<Rightarrow> world" where
  "wire a w = fold log (wiring a) w"

text \<open>Lines 100 to 107: the sources, each with \<open>sourcesCtx\<close>.\<close>

definition launch_sources :: "Agent \<Rightarrow> world \<Rightarrow> world" where
  "launch_sources a w =
     (let w1 = eg_Go EntitiesSourceT (EntitiesSource a) SourcesCtx w;
          w2 = (if EnableMetrics a then eg_Go MetricsSourceT (MetricsSource a) SourcesCtx w1
                else w1);
          w3 = (if EnableAutomation a
                then eg_Go AutomationExecutorT (AutomationExecutor a) SourcesCtx w2
                else w2)
      in eg_Go AuditorT (Auditor a) SourcesCtx w3)"

text \<open>Lines 62 to 95: Start up to the return of WaitAuthorization. The Gateway is
  launched with \<open>sinksCtx\<close>; it may return, and the stop methods may be called, while
  Start is blocked in WaitAuthorization.\<close>

definition authorize :: "Agent \<Rightarrow> env \<Rightarrow> world \<Rightarrow> Agent \<times> world" where
  "authorize a e w =
     (let (a1, w1) = make_contexts (a, w);
          w2 = wire a1 w1;
          w3 = eg_WithContext AllCtx w2;
          w4 = eg_Go GatewayT (Gateway a1) SinksCtx w3;
          (a5, w5) = run_schedule e (during_auth e) (a1, w4)
      in (a5, log (WaitAuthorization (Gateway a5) AuthorizationTimeoutDuration (auth e)) w5))"

text \<open>
  Start. The deferred \<open>a.cancelAll()\<close> was evaluated at the defer statement, so it
  cancels \<open>allCtx\<close> on every return, whatever Stop has stored in the field since.
\<close>

definition Start :: "Agent \<Rightarrow> env \<Rightarrow> world \<Rightarrow> outcome \<times> Agent \<times> world" where
  "Start a e w =
     (let (a5, w6) = authorize a e w
      in case auth e of
           Some err \<Rightarrow> (Returned (Some err), a5, do_cancel AllCtx w6)
         | None \<Rightarrow>
             (let w7 = launch_sources a5 w6;
                  (out, a8, w8) = eg_Wait e (a5, w7)
              in case out of
                   Blocked \<Rightarrow> (Blocked, a8, w8)
                 | Returned r \<Rightarrow> (Returned r, a8, do_cancel AllCtx w8)))"

subsection \<open>Reading a run\<close>

text \<open>The events that a run of Start adds to the trace.\<close>

definition Start_events :: "Agent \<Rightarrow> env \<Rightarrow> world \<Rightarrow> event list" where
  "Start_events a e w = drop (length (trace w)) (trace (snd (snd (Start a e w))))"


fun is_Go :: "event \<Rightarrow> bool" where
  "is_Go (Go t r c) = True"
| "is_Go ev = False"

fun is_source_Go :: "event \<Rightarrow> bool" where
  "is_source_Go (Go t r c) = (t \<noteq> GatewayT)"
| "is_source_Go ev = False"

fun is_WaitAuthorization :: "event \<Rightarrow> bool" where
  "is_WaitAuthorization (WaitAuthorization g d r) = True"
| "is_WaitAuthorization ev = False"

text \<open>The events of the goroutines and of the cancel functions: no call on a
  collaborator.\<close>

fun quiet :: "event \<Rightarrow> bool" where
  "quiet (Return t r) = True"
| "quiet (Cancel c) = True"
| "quiet ev = False"

text \<open>The fields of the agent that are not cancel functions.\<close>

definition config ::
  "Agent \<Rightarrow> (uuid \<times> uuid \<times> uuid) \<times> (ref \<times> ref \<times> ref \<times> ref \<times> ref) \<times> (bool \<times> bool) \<times> ref" where
  "config a =
     ((AccountID a, ClusterID a, AgentID a),
      (MetricsSource a, EntitiesSource a, AutomationExecutor a, Gateway a, Auditor a),
      (EnableMetrics a, EnableAutomation a),
      changeLogLevel a)"



text \<open>From \<open>w\<close> to \<open>w'\<close> the trace only grew, and by quiet events.\<close>

definition quietly :: "world \<Rightarrow> world \<Rightarrow> bool" where
  "quietly w w' = (\<exists>q. trace w' = trace w @ q \<and> list_all quiet q)"

text \<open>The events of lines 100 to 107.\<close>

definition source_launches :: "Agent \<Rightarrow> event list" where
  "source_launches a =
     Go EntitiesSourceT (EntitiesSource a) SourcesCtx
     # (if EnableMetrics a then [Go MetricsSourceT (MetricsSource a) SourcesCtx] else [])
     @ (if EnableAutomation a then [Go AutomationExecutorT (AutomationExecutor a) SourcesCtx] else [])
     @ [Go AuditorT (Auditor a) SourcesCtx]"

subsection \<open>ConfigureGlobalLogger (main.go)\<close>

text \<open>
  The logger package is a library outside the repository: ConfigureGlobalLogger takes
  its two operations, \<open>logger.ConfigWriterSync\<close> and \<open>logger.WithGlobal\<close>, as
  parameters acting on the state \<open>'lg\<close> of the process-wide logger.
\<close>

datatype Level = DebugLevel | InfoLevel | WarnLevel | ErrorLevel

record LogLevel =
  Level :: string

definition ConfigureGlobalLogger ::
  "(Level \<Rightarrow> 'sink \<Rightarrow> 'lg \<Rightarrow> 'lg) \<Rightarrow> ((string \<times> uuid) list \<Rightarrow> 'lg \<Rightarrow> 'lg) \<Rightarrow>
   uuid \<Rightarrow> uuid \<Rightarrow> string \<Rightarrow> 'sink \<Rightarrow> 'lg \<Rightarrow> error option \<times> 'lg" where
  "ConfigureGlobalLogger ConfigWriterSync WithGlobal accountId clusterId level logsSink lg =
     (let configure = (\<lambda>loggerLevel.
            (None, WithGlobal [(''accountID'', accountId), (''clusterID'', clusterId)]
                     (ConfigWriterSync loggerLevel logsSink lg)))
      in if level = ''info'' then configure InfoLevel
         else if level = ''debug'' then configure DebugLevel
         else if level = ''warn'' then configure WarnLevel
         else if level = ''error'' then configure ErrorLevel
         else (Some (''unsupported log level '' @ level), lg))"

text \<open>The handler that main passes to agent.New (lines 305 to 307 of main.go).\<close>

definition main_logLevelHandler ::
  "(Level \<Rightarrow> 'sink \<Rightarrow> 'lg \<Rightarrow> 'lg) \<Rightarrow> ((string \<times> uuid) list \<Rightarrow> 'lg \<Rightarrow> 'lg) \<Rightarrow>
   uuid \<Rightarrow> uuid \<Rightarrow> 'sink \<Rightarrow> LogLevel \<Rightarrow> 'lg \<Rightarrow> error option \<times> 'lg" where
  "main_logLevelHandler ConfigWriterSync WithGlobal accountID clusterID logsSink level lg =
     ConfigureGlobalLogger ConfigWriterSync WithGlobal accountID clusterID (Level level) logsSink lg"

text \<open>A logger to run examples with: it keeps the level, the sink and the global
  fields it was given last.\<close>

record simple_logger =
  lg_level :: Level
  lg_sink :: ref
  lg_fields :: "(string \<times> uuid) list"

definition simple_ConfigWriterSync :: "Level \<Rightarrow> ref \<Rightarrow> simple_logger \<Rightarrow> simple_logger" where
  "simple_ConfigWriterSync l s lg = lg\<lparr>lg_level := l, lg_sink := s\<rparr>"

definition simple_WithGlobal :: "(string \<times> uuid) list \<Rightarrow> simple_logger \<Rightarrow> simple_logger" where
  "simple_WithGlobal kvs lg = lg\<lparr>lg_fields := kvs\<rparr>"

definition logger0 :: simple_logger where
  "logger0 = \<lparr>lg_level = WarnLevel, lg_sink = 7, lg_fields = []\<rparr>"

subsection \<open>Example runs\<close>

definition agent0 :: Agent where
  "agent0 = New 1 2 3 4 5 6 True True"

definition world0 :: world where
  "world0 = \<lparr>cancelled = {}, trace = [], eg_err = None, running = []\<rparr>"

text \<open>The entities source fails; every other task runs until its context is done.\<close>

definition env_entities_fail :: env where
  "env_entities_fail =
     \<lparr>auth = None,
      behaviour = (\<lambda>t. if t = EntitiesSourceT then Returns (Some ''watch failed'')
                       else UntilDone None),
      during_auth = [],
      schedule = [TaskReturns EntitiesSourceT]\<rparr>"

text \<open>The authorization times out; the Gateway runs until its context is done.\<close>

definition env_auth_timeout :: env where
  "env_auth_timeout =
     \<lparr>auth = Some ''authorization timeout'',
      behaviour = (\<lambda>t. UntilDone None),
      during_auth = [],
      schedule = []\<rparr>"

text \<open>Every task runs until its context is done, and stopSinks is called while Start
  waits for the group.\<close>

definition env_stop_sinks :: env where
  "env_stop_sinks =
     \<lparr>auth = None,
      behaviour = (\<lambda>t. UntilDone None),
      during_auth = [],
      schedule = [CallStopSinks]\<rparr>"

text \<open>Every task runs until its context is done, and Stop is called while Start waits
  for the group.\<close>

definition env_stop :: env where
  "env_stop =
     \<lparr>auth = None,
      behaviour = (\<lambda>t. UntilDone None),
      during_auth = [],
      schedule = [CallStop]\<rparr>"

text \<open>The entities source fails first; then every other task returns by itself.\<close>

definition env_entities_first :: env where
  "env_entities_first =
     \<lparr>auth = None,
      behaviour = (\<lambda>t. if t = EntitiesSourceT then Returns (Some ''watch failed'')
                       else Returns None),
      during_auth = [],
      schedule = [TaskReturns EntitiesSourceT, TaskReturns GatewayT, TaskReturns MetricsSourceT,
                  TaskReturns AutomationExecutorT, TaskReturns AuditorT]\<rparr>"

subsection \<open>Repeated calls, and the identity of the agent\<close>

text \<open>A stop method called \<open>n\<close> times in a row.\<close>

fun call_times ::
  "(Agent \<Rightarrow> world \<Rightarrow> error option \<times> Agent \<times> world) \<Rightarrow> nat \<Rightarrow> Agent \<times> world \<Rightarrow> Agent \<times> world" where
  "call_times m 0 aw = aw"
| "call_times m (Suc n) aw = call_times m n (snd (m (fst aw) (snd aw)))"

text \<open>The identity fields of the agent.\<close>

definition identity :: "Agent \<Rightarrow> uuid \<times> uuid \<times> uuid" where
  "identity a = (AccountID a, ClusterID a, AgentID a)"

text \<open>The registrations made through one setter, in order: on which collaborator,
  and which callback.\<close>

fun registered :: "setter \<Rightarrow> event list \<Rightarrow> (ref \<times> callback) list" where
  "registered s [] = []"
| "registered s (Register r s' cb # evs) =
     (if s' = s then (r, cb) # registered s evs else registered s evs)"
| "registered s (ev # evs) = registered s evs"

text \<open>The first non-nil error that a task of the group returned.\<close>

fun first_error :: "event list \<Rightarrow> error option" where
  "first_error [] = None"
| "first_error (Return t (Some err) # evs) = Some err"
| "first_error (ev # evs) = first_error evs"

text \<open>The error kept by the group is the first one returned since the trace had
  length \<open>n\<close>.\<close>

definition group_inv :: "nat \<Rightarrow> world \<Rightarrow> bool" where
  "group_inv n w = (n \<le> length (trace w) \<and> eg_err w = first_error (drop n (trace w)))"

section \<open>Properties\<close>

subsection \<open>The trace of a run\<close>

lemma quietly_refl: "quietly w w"
  by (simp add: quietly_def)

lemma quietly_trans: "quietly w w' \<Longrightarrow> quietly w' w'' \<Longrightarrow> quietly w w''"
  by (auto simp: quietly_def)

lemma quietly_do_cancel: "quietly w (do_cancel t w)"
  by (simp add: quietly_def do_cancel_def)

lemma quietly_task_return: "quietly w (task_return p r w)"
  by (simp add: quietly_def task_return_def Let_def log_def do_cancel_def)

lemma quietly_drain: "quietly w (drain e w)"
proof (induction e w rule: drain.induct)
  case (1 e w)
  show ?case
  proof (cases "find (releasable e w) (running w)")
    case None
    then have "drain e w = w" by (subst drain.simps) simp
    then show ?thesis by (simp add: quietly_refl)
  next
    case (Some p)
    let ?w = "task_return p (result (behaviour e (fst p))) w"
    have "drain e w = drain e ?w" using Some by (subst drain.simps) simp
    moreover have "quietly ?w (drain e ?w)" using "1.IH" [OF Some] .
    ultimately show ?thesis using quietly_trans [OF quietly_task_return] by simp
  qed
qed

lemma quietly_do_step: "quietly w (snd (do_step e s (a, w)))"
  by (cases s)
     (auto simp: Stop_def stopSources_def stopSinks_def quietly_refl quietly_do_cancel
                 quietly_task_return split: option.splits behaviour.splits)

lemma quietly_run_schedule: "quietly w (snd (run_schedule e ss (a, w)))"
proof (induction ss arbitrary: a w)
  case Nil
  then show ?case by (simp add: quietly_drain)
next
  case (Cons s ss)
  obtain a' w' where st: "do_step e s (a, drain e w) = (a', w')"
    by (cases "do_step e s (a, drain e w)")
  have "quietly (drain e w) w'"
    using quietly_do_step [of "drain e w" e s a] by (simp add: st)
  then have "quietly w w'" using quietly_trans [OF quietly_drain] by blast
  moreover have "quietly w' (snd (run_schedule e ss (a', w')))" by (rule Cons.IH)
  ultimately have "quietly w (snd (run_schedule e ss (a', w')))" by (rule quietly_trans)
  then show ?case by (simp add: st)
qed

lemma trace_fold_log: "trace (fold log evs w) = trace w @ evs"
  by (induction evs arbitrary: w) (simp_all add: log_def)

lemma wiring_config: "config a = config b \<Longrightarrow> wiring a = wiring b"
  by (simp add: config_def wiring_def)

lemma trace_WithCancel: "trace (WithCancel p t w) = trace w"
  by (simp add: WithCancel_def split: option.splits)

lemma trace_make_contexts: "trace (snd (make_contexts aw)) = trace (snd aw)"
  by (simp add: make_contexts_def Let_def trace_WithCancel)

lemma config_do_step: "config (fst (do_step e s aw)) = config (fst aw)"
  by (cases aw; cases s)
     (auto simp: config_def Stop_def stopSources_def stopSinks_def
           split: option.splits behaviour.splits)

lemma config_run_schedule: "config (fst (run_schedule e ss aw)) = config (fst aw)"
proof (induction ss arbitrary: aw)
  case Nil
  then show ?case by (cases aw) simp
next
  case (Cons s ss)
  obtain a w where aw: "aw = (a, w)" by (cases aw)
  have "config (fst (run_schedule e (s # ss) aw)) = config (fst (do_step e s (a, drain e w)))"
    using Cons.IH [of "do_step e s (a, drain e w)"] by (simp add: aw)
  then show ?case by (simp add: config_do_step aw)
qed

lemma config_make_contexts: "config (fst (make_contexts aw)) = config (fst aw)"
  by (simp add: make_contexts_def Let_def config_def)

lemma config_authorize: "config (fst (authorize a e w)) = config a"
  by (simp add: authorize_def Let_def split_beta config_run_schedule config_make_contexts)

lemma config_eg_Wait: "config (fst (snd (eg_Wait e aw))) = config (fst aw)"
  by (simp add: eg_Wait_def Let_def split_beta config_run_schedule)

lemma config_Start: "config (fst (snd (Start a e w))) = config a"
  by (simp add: Start_def Let_def split_beta config_eg_Wait config_authorize
           split: option.splits outcome.splits)

lemma config_Gateway: "config a = config b \<Longrightarrow> Gateway a = Gateway b"
  by (simp add: config_def)

lemma trace_authorize:
  "\<exists>q. list_all quiet q \<and>
     trace (snd (authorize a e w)) =
       trace w @ wiring a @ Go GatewayT (Gateway a) SinksCtx # q
         @ [WaitAuthorization (Gateway a) AuthorizationTimeoutDuration (auth e)]"
proof -
  define a1 where "a1 = fst (make_contexts (a, w))"
  define w1 where "w1 = snd (make_contexts (a, w))"
  define w4 where "w4 = eg_Go GatewayT (Gateway a1) SinksCtx (eg_WithContext AllCtx (wire a1 w1))"
  define a5 where "a5 = fst (run_schedule e (during_auth e) (a1, w4))"
  define w5 where "w5 = snd (run_schedule e (during_auth e) (a1, w4))"
  have c1: "config a1 = config a"
    using config_make_contexts [of "(a, w)"] by (simp add: a1_def)
  have c5: "config a5 = config a"
    using config_run_schedule [of e "during_auth e" "(a1, w4)"] c1 by (simp add: a5_def)
  have t4: "trace w4 = trace w @ wiring a @ [Go GatewayT (Gateway a) SinksCtx]"
    using trace_make_contexts [of "(a, w)"] wiring_config [OF c1] config_Gateway [OF c1]
    by (simp add: w4_def eg_Go_def log_def eg_WithContext_def trace_WithCancel wire_def
          trace_fold_log w1_def)
  obtain q where q: "trace w5 = trace w4 @ q" "list_all quiet q"
    using quietly_run_schedule [of w4 e "during_auth e" a1] by (auto simp: quietly_def w5_def)
  have "authorize a e w =
      (a5, log (WaitAuthorization (Gateway a5) AuthorizationTimeoutDuration (auth e)) w5)"
    by (simp add: authorize_def Let_def split_beta a1_def w1_def w4_def a5_def w5_def)
  then have "trace (snd (authorize a e w)) =
       trace w @ wiring a @ Go GatewayT (Gateway a) SinksCtx # q
         @ [WaitAuthorization (Gateway a) AuthorizationTimeoutDuration (auth e)]"
    using q(1) t4 config_Gateway [OF c5] by (simp add: log_def)
  then show ?thesis using q(2) by blast
qed

lemma source_launches_config: "config a = config b \<Longrightarrow> source_launches a = source_launches b"
  by (simp add: config_def source_launches_def)

lemma trace_launch_sources: "trace (launch_sources a w) = trace w @ source_launches a"
  by (simp add: launch_sources_def source_launches_def Let_def eg_Go_def log_def)

lemma Start_events_shape:
  "\<exists>q1 q2. list_all quiet q1 \<and> list_all quiet q2 \<and>
     Start_events a e w =
       wiring a @ Go GatewayT (Gateway a) SinksCtx # q1
         @ WaitAuthorization (Gateway a) AuthorizationTimeoutDuration (auth e)
         # (case auth e of
              Some err \<Rightarrow> [Cancel AllCtx]
            | None \<Rightarrow> source_launches a @ GroupWait # q2)"
proof -
  define a5 where "a5 = fst (authorize a e w)"
  define w6 where "w6 = snd (authorize a e w)"
  obtain q1 where q1: "list_all quiet q1"
    "trace w6 = trace w @ wiring a @ Go GatewayT (Gateway a) SinksCtx # q1
         @ [WaitAuthorization (Gateway a) AuthorizationTimeoutDuration (auth e)]"
    using trace_authorize [of a e w] by (auto simp: w6_def)
  have c5: "config a5 = config a" by (simp add: a5_def config_authorize)
  show ?thesis
  proof (cases "auth e")
    case (Some err)
    have "Start a e w = (Returned (Some err), a5, do_cancel AllCtx w6)"
      by (simp add: Start_def Some split_beta a5_def w6_def)
    then have "Start_events a e w = wiring a @ Go GatewayT (Gateway a) SinksCtx # q1
         @ WaitAuthorization (Gateway a) AuthorizationTimeoutDuration (auth e) # [Cancel AllCtx]"
      using q1(2) by (simp add: Start_events_def do_cancel_def)
    then show ?thesis using q1(1) Some by (intro exI [of _ q1] exI [of _ "[]"]) simp
  next
    case None
    define w7 where "w7 = log GroupWait (launch_sources a5 w6)"
    define a8 where "a8 = fst (run_schedule e (schedule e) (a5, w7))"
    define w8 where "w8 = snd (run_schedule e (schedule e) (a5, w7))"
    define w9 where "w9 = snd (snd (Start a e w))"
    obtain q where q: "trace w8 = trace w7 @ q" "list_all quiet q"
      using quietly_run_schedule [of w7 e "schedule e" a5] by (auto simp: quietly_def w8_def)
    have "w9 = (if running w8 = [] then do_cancel AllCtx (do_cancel GroupCtx w8) else w8)"
      by (simp add: w9_def Start_def None split_beta a5_def w6_def eg_Wait_def Let_def w7_def w8_def)
    then have "\<exists>q2. list_all quiet q2 \<and> trace w9 = trace w7 @ q2"
      using q by (cases "running w8 = []") (auto simp: do_cancel_def)
    then obtain q2 where q2: "list_all quiet q2" "trace w9 = trace w7 @ q2" by blast
    have "trace w7 = trace w6 @ source_launches a @ [GroupWait]"
      using source_launches_config [OF c5] by (simp add: w7_def log_def trace_launch_sources)
    then have "Start_events a e w = wiring a @ Go GatewayT (Gateway a) SinksCtx # q1
         @ WaitAuthorization (Gateway a) AuthorizationTimeoutDuration (auth e)
         # source_launches a @ GroupWait # q2"
      using q1(2) q2(2) by (simp add: Start_events_def w9_def [symmetric])
    then show ?thesis using q1(1) q2(1) None by (intro exI [of _ q1] exI [of _ q2]) simp
  qed
qed

subsection \<open>Cancellation on return\<close>

text \<open>
  C10. Whenever Start returns (with the authorization error, with the first error of a
  task, or with nil after every task has returned), the deferred cancel has run: the
  root context is done, and with it the sources and the sinks contexts. The cancel of
  the root context is the last thing Start does.
\<close>

theorem Start_return_cancels_root:
  assumes "fst (Start a e w) = Returned r"
  shows "AllCtx \<in> cancelled (snd (snd (Start a e w)))
       \<and> SourcesCtx \<in> cancelled (snd (snd (Start a e w)))
       \<and> SinksCtx \<in> cancelled (snd (snd (Start a e w)))
       \<and> last (trace (snd (snd (Start a e w)))) = Cancel AllCtx"
  using assms
  by (auto simp: Start_def Let_def split_beta do_cancel_def split: option.splits outcome.splits)

theorem Start_return_cancels_root_witness:
  "fst (Start agent0 env_auth_timeout world0) = Returned (Some ''authorization timeout'')
   \<and> AllCtx \<in> cancelled (snd (snd (Start agent0 env_auth_timeout world0)))
   \<and> SourcesCtx \<in> cancelled (snd (snd (Start agent0 env_auth_timeout world0)))
   \<and> SinksCtx \<in> cancelled (snd (snd (Start agent0 env_auth_timeout world0)))
   \<and> fst (Start agent0 env_entities_first world0) = Returned (Some ''watch failed'')
   \<and> AllCtx \<in> cancelled (snd (snd (Start agent0 env_entities_first world0)))
   \<and> SourcesCtx \<in> cancelled (snd (snd (Start agent0 env_entities_first world0)))
   \<and> SinksCtx \<in> cancelled (snd (snd (Start agent0 env_entities_first world0)))
   \<and> fst (Start agent0 env_stop world0) = Returned None
   \<and> AllCtx \<in> cancelled (snd (snd (Start agent0 env_stop world0)))
   \<and> SourcesCtx \<in> cancelled (snd (snd (Start agent0 env_stop world0)))
   \<and> SinksCtx \<in> cancelled (snd (snd (Start agent0 env_stop world0)))"
proof -
  have h1: "fst (Start agent0 env_auth_timeout world0) = Returned (Some ''authorization timeout'')"
    by code_simp
  have h2: "fst (Start agent0 env_entities_first world0) = Returned (Some ''watch failed'')"
    by code_simp
  have h3: "fst (Start agent0 env_stop world0) = Returned None"
    by code_simp
  show ?thesis
    using h1 h2 h3 Start_return_cancels_root [OF h1] Start_return_cancels_root [OF h2]
      Start_return_cancels_root [OF h3]
    by simp
qed

subsection \<open>The stop methods\<close>

lemma Stop_again: "Stop (fst (snd (Stop a w))) (snd (snd (Stop a w))) = (None, snd (Stop a w))"
  by (simp add: Stop_def split: option.splits)

lemma stopSources_again:
  "stopSources (fst (snd (stopSources a w))) (snd (snd (stopSources a w))) = (None, snd (stopSources a w))"
  by (simp add: stopSources_def split: option.splits)

lemma stopSinks_again:
  "stopSinks (fst (snd (stopSinks a w))) (snd (snd (stopSinks a w))) = (None, snd (stopSinks a w))"
  by (simp add: stopSinks_def split: option.splits)

lemma call_times_fixed:
  assumes "snd (m (fst aw) (snd aw)) = aw"
  shows "call_times m n aw = aw"
  using assms by (induction n) simp_all

lemma Stop_times: "call_times Stop (Suc n) (a, w) = snd (Stop a w)"
  using call_times_fixed [of Stop "snd (Stop a w)" n] by (simp add: Stop_again)

lemma stopSources_times: "call_times stopSources (Suc n) (a, w) = snd (stopSources a w)"
  using call_times_fixed [of stopSources "snd (stopSources a w)" n] by (simp add: stopSources_again)

lemma stopSinks_times: "call_times stopSinks (Suc n) (a, w) = snd (stopSinks a w)"
  using call_times_fixed [of stopSinks "snd (stopSinks a w)" n] by (simp add: stopSinks_again)

lemma New_handles: "cancelAll (New ms es ae gw h au em ea) = None"
  "cancelSources (New ms es ae gw h au em ea) = None"
  "cancelSinks (New ms es ae gw h au em ea) = None"
  by (simp_all add: New_def)

text \<open>
  C7. Stop, stopSources and stopSinks always return nil. Called on an agent whose
  cancel function is nil (as New leaves it, so before Start), each changes nothing.
  Called on an agent that holds a cancel function, each calls it and stores nil. Called
  \<open>n + 1\<close> times in a row, each leaves the state of the first call, and every further
  call returns nil.
\<close>

theorem stop_methods_idempotent:
  "fst (Stop a w) = None \<and> fst (stopSources a w) = None \<and> fst (stopSinks a w) = None
   \<and> (cancelAll a = None \<longrightarrow> Stop a w = (None, a, w))
   \<and> (cancelSources a = None \<longrightarrow> stopSources a w = (None, a, w))
   \<and> (cancelSinks a = None \<longrightarrow> stopSinks a w = (None, a, w))
   \<and> (cancelAll a = Some t \<longrightarrow> Stop a w = (None, a\<lparr>cancelAll := None\<rparr>, do_cancel t w))
   \<and> (cancelSources a = Some t \<longrightarrow>
        stopSources a w = (None, a\<lparr>cancelSources := None\<rparr>, do_cancel t w))
   \<and> (cancelSinks a = Some t \<longrightarrow>
        stopSinks a w = (None, a\<lparr>cancelSinks := None\<rparr>, do_cancel t w))
   \<and> call_times Stop (Suc n) (a, w) = snd (Stop a w)
   \<and> call_times stopSources (Suc n) (a, w) = snd (stopSources a w)
   \<and> call_times stopSinks (Suc n) (a, w) = snd (stopSinks a w)
   \<and> fst (Stop (fst (call_times Stop n (a, w))) (snd (call_times Stop n (a, w)))) = None
   \<and> fst (stopSources (fst (call_times stopSources n (a, w)))
         (snd (call_times stopSources n (a, w)))) = None
   \<and> fst (stopSinks (fst (call_times stopSinks n (a, w)))
         (snd (call_times stopSinks n (a, w)))) = None
   \<and> Stop (New ms es ae gw h au em ea) w = (None, New ms es ae gw h au em ea, w)
   \<and> stopSources (New ms es ae gw h au em ea) w = (None, New ms es ae gw h au em ea, w)
   \<and> stopSinks (New ms es ae gw h au em ea) w = (None, New ms es ae gw h au em ea, w)"
proof -
  have nil: "fst (Stop a' w') = None" "fst (stopSources a' w') = None"
    "fst (stopSinks a' w') = None" for a' w'
    by (simp_all add: Stop_def stopSources_def stopSinks_def split: option.splits)
  have first: "(cancelAll a = None \<longrightarrow> Stop a w = (None, a, w))
   \<and> (cancelSources a = None \<longrightarrow> stopSources a w = (None, a, w))
   \<and> (cancelSinks a = None \<longrightarrow> stopSinks a w = (None, a, w))
   \<and> (cancelAll a = Some t \<longrightarrow> Stop a w = (None, a\<lparr>cancelAll := None\<rparr>, do_cancel t w))
   \<and> (cancelSources a = Some t \<longrightarrow>
        stopSources a w = (None, a\<lparr>cancelSources := None\<rparr>, do_cancel t w))
   \<and> (cancelSinks a = Some t \<longrightarrow>
        stopSinks a w = (None, a\<lparr>cancelSinks := None\<rparr>, do_cancel t w))"
    by (simp add: Stop_def stopSources_def stopSinks_def)
  have new: "Stop (New ms es ae gw h au em ea) w = (None, New ms es ae gw h au em ea, w)"
    "stopSources (New ms es ae gw h au em ea) w = (None, New ms es ae gw h au em ea, w)"
    "stopSinks (New ms es ae gw h au em ea) w = (None, New ms es ae gw h au em ea, w)"
    by (simp_all add: Stop_def stopSources_def stopSinks_def New_handles)
  show ?thesis
    using first Stop_times [of n a w] stopSources_times [of n a w] stopSinks_times [of n a w]
    by (simp only: nil new) simp
qed

theorem stop_methods_idempotent_witness:
  "Stop agent0 world0 = (None, agent0, world0)
   \<and> stopSources agent0 world0 = (None, agent0, world0)
   \<and> stopSinks agent0 world0 = (None, agent0, world0)
   \<and> Stop (fst (make_contexts (agent0, world0))) world0 =
       (None, (fst (make_contexts (agent0, world0)))\<lparr>cancelAll := None\<rparr>, do_cancel AllCtx world0)
   \<and> stopSources (fst (make_contexts (agent0, world0))) world0 =
       (None, (fst (make_contexts (agent0, world0)))\<lparr>cancelSources := None\<rparr>,
        do_cancel SourcesCtx world0)
   \<and> stopSinks (fst (make_contexts (agent0, world0))) world0 =
       (None, (fst (make_contexts (agent0, world0)))\<lparr>cancelSinks := None\<rparr>,
        do_cancel SinksCtx world0)
   \<and> cancelled (do_cancel AllCtx world0) = {AllCtx, SourcesCtx, SinksCtx, GroupCtx}
   \<and> cancelled (do_cancel SourcesCtx world0) = {SourcesCtx}
   \<and> cancelled (do_cancel SinksCtx world0) = {SinksCtx}"
proof -
  let ?a = "fst (make_contexts (agent0, world0))"
  have n: "cancelAll agent0 = None" "cancelSources agent0 = None" "cancelSinks agent0 = None"
    by (simp_all add: agent0_def New_def)
  have s: "cancelAll ?a = Some AllCtx" "cancelSources ?a = Some SourcesCtx"
    "cancelSinks ?a = Some SinksCtx"
    by (simp_all add: make_contexts_def Let_def)
  have c: "cancelled (do_cancel AllCtx world0) = {AllCtx, SourcesCtx, SinksCtx, GroupCtx}"
    "cancelled (do_cancel SourcesCtx world0) = {SourcesCtx}"
    "cancelled (do_cancel SinksCtx world0) = {SinksCtx}"
    by (auto simp: do_cancel_def world0_def)
  show ?thesis
    using n s c stop_methods_idempotent [of agent0 world0 AllCtx 0]
      stop_methods_idempotent [of ?a world0 AllCtx 0]
      stop_methods_idempotent [of ?a world0 SourcesCtx 0]
      stop_methods_idempotent [of ?a world0 SinksCtx 0]
    by simp
qed

subsection \<open>The log level\<close>

text \<open>
  C8. ConfigureGlobalLogger, which the log-level handler built in main calls with the
  requested name, returns nil exactly for the names info, debug, warn and error, and
  then has configured the logger with the level of that name and the given sink (and
  set the global fields). For every other name it returns the error
  "unsupported log level" with the name, and the logger is as it was.
\<close>

theorem ConfigureGlobalLogger_levels:
  "ConfigureGlobalLogger cws wg acc cl ''info'' sink lg =
     (None, wg [(''accountID'', acc), (''clusterID'', cl)] (cws InfoLevel sink lg))
   \<and> ConfigureGlobalLogger cws wg acc cl ''debug'' sink lg =
     (None, wg [(''accountID'', acc), (''clusterID'', cl)] (cws DebugLevel sink lg))
   \<and> ConfigureGlobalLogger cws wg acc cl ''warn'' sink lg =
     (None, wg [(''accountID'', acc), (''clusterID'', cl)] (cws WarnLevel sink lg))
   \<and> ConfigureGlobalLogger cws wg acc cl ''error'' sink lg =
     (None, wg [(''accountID'', acc), (''clusterID'', cl)] (cws ErrorLevel sink lg))
   \<and> (level \<notin> {''info'', ''debug'', ''warn'', ''error''} \<longrightarrow>
        ConfigureGlobalLogger cws wg acc cl level sink lg =
          (Some (''unsupported log level '' @ level), lg))
   \<and> (fst (ConfigureGlobalLogger cws wg acc cl level sink lg) = None
        \<longleftrightarrow> level \<in> {''info'', ''debug'', ''warn'', ''error''})
   \<and> main_logLevelHandler cws wg acc cl sink lv lg =
        ConfigureGlobalLogger cws wg acc cl (Level lv) sink lg"
  by (simp add: ConfigureGlobalLogger_def main_logLevelHandler_def Let_def)

theorem ConfigureGlobalLogger_levels_witness:
  "main_logLevelHandler simple_ConfigWriterSync simple_WithGlobal 10 20 8 \<lparr>Level = ''verbose''\<rparr> logger0
     = (Some ''unsupported log level verbose'', logger0)
   \<and> lg_level (snd (main_logLevelHandler simple_ConfigWriterSync simple_WithGlobal 10 20 8
         \<lparr>Level = ''verbose''\<rparr> logger0)) = WarnLevel
   \<and> main_logLevelHandler simple_ConfigWriterSync simple_WithGlobal 10 20 8 \<lparr>Level = ''debug''\<rparr> logger0
     = (None, \<lparr>lg_level = DebugLevel, lg_sink = 8,
               lg_fields = [(''accountID'', 10), (''clusterID'', 20)]\<rparr>)"
proof -
  have h: "''verbose'' \<notin> {''info'', ''debug'', ''warn'', ''error''}" by simp
  show ?thesis
    using h
      ConfigureGlobalLogger_levels [of simple_ConfigWriterSync simple_WithGlobal 10 20 8 logger0
        "''verbose''" "\<lparr>Level = ''verbose''\<rparr>"]
      ConfigureGlobalLogger_levels [of simple_ConfigWriterSync simple_WithGlobal 10 20 8 logger0
        "''verbose''" "\<lparr>Level = ''debug''\<rparr>"]
    by (simp add: simple_ConfigWriterSync_def simple_WithGlobal_def logger0_def)
qed

subsection \<open>The identity of the agent\<close>

lemma identity_config: "config a = config b \<Longrightarrow> identity a = identity b"
  by (simp add: config_def identity_def)

text \<open>
  C9, as amended. New has no parameter for the identity: whatever it is given, the
  AccountID, ClusterID and AgentID of the agent it returns are the zero UUID. No
  operation of the supervisor (Start, with whatever happens while it is blocked, Stop,
  stopSources, stopSinks) changes the three fields.
\<close>

theorem New_identity_zero_and_never_modified:
  "AccountID (New ms es ae gw h au em ea) = uuid_Nil
   \<and> ClusterID (New ms es ae gw h au em ea) = uuid_Nil
   \<and> AgentID (New ms es ae gw h au em ea) = uuid_Nil
   \<and> identity (fst (snd (Start a e w))) = identity a
   \<and> identity (fst (snd (Stop a w))) = identity a
   \<and> identity (fst (snd (stopSources a w))) = identity a
   \<and> identity (fst (snd (stopSinks a w))) = identity a"
  using identity_config [OF config_Start [of a e w]]
  by (simp add: New_def)
     (simp add: identity_def Stop_def stopSources_def stopSinks_def split: option.splits)

text \<open>
  C9 as stated fails: the identity of the agent New returns is not taken from what New
  is given. Two calls with different arguments throughout return the same identity,
  the zero UUID.
\<close>

theorem New_identity_counterexample:
  "AccountID (New 1 2 3 4 5 6 True True) = uuid_Nil
   \<and> ClusterID (New 1 2 3 4 5 6 True True) = uuid_Nil
   \<and> AgentID (New 1 2 3 4 5 6 True True) = uuid_Nil
   \<and> identity (New 1 2 3 4 5 6 True True) = identity (New 11 12 13 14 15 16 False False)"
  by (simp add: New_def identity_def)

subsection \<open>Kinds of events\<close>

lemma filter_quiet_Go: "list_all quiet q \<Longrightarrow> filter is_Go q = []"
  by (induction q) (auto elim: quiet.elims)

lemma quiet_not_Go: "quiet ev \<Longrightarrow> \<not> is_Go ev"
  by (cases ev) simp_all


lemma quiet_not_WaitAuthorization: "quiet ev \<Longrightarrow> \<not> is_WaitAuthorization ev"
  by (cases ev) simp_all

lemma quiet_not_GroupWait: "quiet ev \<Longrightarrow> ev \<noteq> GroupWait"
  by (cases ev) simp_all

lemma filter_wiring_Go: "filter is_Go (wiring a) = []"
  by (simp add: wiring_def)

lemma filter_source_launches_Go: "filter is_Go (source_launches a) = source_launches a"
  by (simp add: source_launches_def)

lemma Hour_ns: "AuthorizationTimeoutDuration = 2 * 60 * 60 * 1000000000"
  by (simp add: AuthorizationTimeoutDuration_def Hour_def Minute_def Second_def Millisecond_def
        Microsecond_def Nanosecond_def)

subsection \<open>The authorization gate\<close>

text \<open>
  C2. Every run of Start calls WaitAuthorization on the Gateway once, with the timeout
  of 2 hours (in nanoseconds). When it returns an error, Start returns that error and
  the only task launched in the run is the Gateway: no Start of EntitiesSource,
  MetricsSource, AutomationExecutor or Auditor is invoked.
\<close>

theorem Start_authorization_gate:
  "AuthorizationTimeoutDuration = 2 * 60 * 60 * 1000000000
   \<and> filter is_WaitAuthorization (Start_events a e w) =
       [WaitAuthorization (Gateway a) AuthorizationTimeoutDuration (auth e)]
   \<and> (auth e = Some err \<longrightarrow>
        fst (Start a e w) = Returned (Some err)
        \<and> filter is_Go (Start_events a e w) = [Go GatewayT (Gateway a) SinksCtx])"
proof -
  obtain q1 q2 where q: "list_all quiet q1" "list_all quiet q2"
    and ev: "Start_events a e w =
       wiring a @ Go GatewayT (Gateway a) SinksCtx # q1
         @ WaitAuthorization (Gateway a) AuthorizationTimeoutDuration (auth e)
         # (case auth e of
              Some err \<Rightarrow> [Cancel AllCtx]
            | None \<Rightarrow> source_launches a @ GroupWait # q2)"
    using Start_events_shape [of a e w] by blast
  have f1: "filter is_WaitAuthorization q1 = []" "filter is_WaitAuthorization q2 = []"
    "filter is_Go q1 = []"
    using q by (auto simp: list_all_iff quiet_not_WaitAuthorization quiet_not_Go)
  have f2: "filter is_WaitAuthorization (wiring a) = []"
    "filter is_WaitAuthorization (source_launches a) = []"
    by (simp_all add: wiring_def source_launches_def)
  have w: "filter is_WaitAuthorization (Start_events a e w) =
       [WaitAuthorization (Gateway a) AuthorizationTimeoutDuration (auth e)]"
    by (simp add: ev f1 f2 split: option.splits)
  have r: "fst (Start a e w) = Returned (Some err)" if "auth e = Some err"
    using that by (simp add: Start_def split_beta)
  have g: "filter is_Go (Start_events a e w) = [Go GatewayT (Gateway a) SinksCtx]"
    if "auth e = Some err"
    using that by (simp add: ev f1 filter_wiring_Go)
  show ?thesis using w r g Hour_ns by simp
qed


theorem Start_authorization_gate_witness:
  "fst (Start agent0 env_auth_timeout world0) = Returned (Some ''authorization timeout'')
   \<and> filter is_Go (Start_events agent0 env_auth_timeout world0) = [Go GatewayT 4 SinksCtx]
   \<and> filter is_WaitAuthorization (Start_events agent0 env_auth_timeout world0) =
       [WaitAuthorization 4 7200000000000 (Some ''authorization timeout'')]"
proof -
  have h: "auth env_auth_timeout = Some ''authorization timeout''"
    by (simp add: env_auth_timeout_def)
  have g: "Gateway agent0 = 4"
    by (simp add: agent0_def New_def)
  show ?thesis
    using h g Start_authorization_gate [of agent0 env_auth_timeout world0 "''authorization timeout''"]
    by simp
qed

subsection \<open>What is launched and wired\<close>

lemma registered_append: "registered s (xs @ ys) = registered s xs @ registered s ys"
  by (induction s xs rule: registered.induct) simp_all

lemma registered_quiet: "list_all quiet q \<Longrightarrow> registered s q = []"
  by (induction s q rule: registered.induct) simp_all

lemma registered_source_launches: "registered s (source_launches a) = []"
  by (simp add: source_launches_def)

lemma registered_Start: "registered s (Start_events a e w) = registered s (wiring a)"
proof -
  obtain q1 q2 where q: "list_all quiet q1" "list_all quiet q2"
    and ev: "Start_events a e w =
       wiring a @ Go GatewayT (Gateway a) SinksCtx # q1
         @ WaitAuthorization (Gateway a) AuthorizationTimeoutDuration (auth e)
         # (case auth e of
              Some err \<Rightarrow> [Cancel AllCtx]
            | None \<Rightarrow> source_launches a @ GroupWait # q2)"
    using Start_events_shape [of a e w] by blast
  show ?thesis
    using q by (simp add: ev registered_append registered_quiet registered_source_launches
          split: option.splits)
qed

text \<open>
  C5. In every run in which the authorization succeeds, the tasks launched are the
  Gateway and then, each with the sources context: EntitiesSource; MetricsSource if and
  only if EnableMetrics; AutomationExecutor if and only if EnableAutomation; Auditor.
  The metrics handler is registered (on the metrics source) if and only if
  EnableMetrics; SubmitAutomation is registered on the Gateway, and the feedback handler
  on the executor, if and only if EnableAutomation.
\<close>

theorem Start_launches_by_flags:
  assumes "auth e = None"
  shows "filter is_Go (Start_events a e w) =
       Go GatewayT (Gateway a) SinksCtx
       # Go EntitiesSourceT (EntitiesSource a) SourcesCtx
       # (if EnableMetrics a then [Go MetricsSourceT (MetricsSource a) SourcesCtx] else [])
       @ (if EnableAutomation a
          then [Go AutomationExecutorT (AutomationExecutor a) SourcesCtx] else [])
       @ [Go AuditorT (Auditor a) SourcesCtx]
   \<and> registered SetMetricsHandler (Start_events a e w) =
       (if EnableMetrics a then [(MetricsSource a, handleMetrics)] else [])
   \<and> registered SetAutomationHandler (Start_events a e w) =
       (if EnableAutomation a then [(Gateway a, SubmitAutomation (AutomationExecutor a))] else [])
   \<and> registered SetAutomationFeedbackHandler (Start_events a e w) =
       (if EnableAutomation a then [(AutomationExecutor a, handleAutomationFeedback)] else [])"
proof -
  obtain q1 q2 where q: "list_all quiet q1" "list_all quiet q2"
    and ev: "Start_events a e w =
       wiring a @ Go GatewayT (Gateway a) SinksCtx # q1
         @ WaitAuthorization (Gateway a) AuthorizationTimeoutDuration (auth e)
         # (case auth e of
              Some err \<Rightarrow> [Cancel AllCtx]
            | None \<Rightarrow> source_launches a @ GroupWait # q2)"
    using Start_events_shape [of a e w] by blast
  have "filter is_Go (Start_events a e w) = Go GatewayT (Gateway a) SinksCtx # source_launches a"
    using q assms
    by (simp add: ev filter_quiet_Go filter_wiring_Go filter_source_launches_Go)
  then show ?thesis
    by (simp add: source_launches_def registered_Start) (simp add: wiring_def)
qed

theorem Start_launches_by_flags_witness:
  "filter is_Go (Start_events (New 1 2 3 4 5 6 False True) env_stop world0) =
     [Go GatewayT 4 SinksCtx, Go EntitiesSourceT 2 SourcesCtx,
      Go AutomationExecutorT 3 SourcesCtx, Go AuditorT 6 SourcesCtx]
   \<and> registered SetMetricsHandler (Start_events (New 1 2 3 4 5 6 False True) env_stop world0) = []
   \<and> registered SetAutomationHandler (Start_events (New 1 2 3 4 5 6 False True) env_stop world0)
       = [(4, SubmitAutomation 3)]
   \<and> registered SetAutomationFeedbackHandler
       (Start_events (New 1 2 3 4 5 6 False True) env_stop world0)
       = [(3, handleAutomationFeedback)]
   \<and> filter is_Go (Start_events (New 1 2 3 4 5 6 True False) env_stop world0) =
     [Go GatewayT 4 SinksCtx, Go EntitiesSourceT 2 SourcesCtx,
      Go MetricsSourceT 1 SourcesCtx, Go AuditorT 6 SourcesCtx]
   \<and> registered SetMetricsHandler (Start_events (New 1 2 3 4 5 6 True False) env_stop world0)
       = [(1, handleMetrics)]
   \<and> registered SetAutomationHandler (Start_events (New 1 2 3 4 5 6 True False) env_stop world0) = []"
proof -
  have h: "auth env_stop = None"
    by (simp add: env_stop_def)
  show ?thesis
    using Start_launches_by_flags [OF h, of "New 1 2 3 4 5 6 False True" world0]
      Start_launches_by_flags [OF h, of "New 1 2 3 4 5 6 True False" world0]
    by (simp add: New_def)
qed

subsection \<open>The order of a run\<close>














subsection \<open>An authorization error\<close>

lemma cancelled_make_contexts:
  "cancelled (snd (make_contexts (a, w))) = cancelled w - {AllCtx, SourcesCtx, SinksCtx}"
  by (auto simp: make_contexts_def Let_def WithCancel_def)

lemma fold_log_frame:
  "running (fold log evs w) = running w" "cancelled (fold log evs w) = cancelled w"
  by (induction evs arbitrary: w) (simp_all add: log_def)

lemma running_wire: "running (wire a w) = running w" "cancelled (wire a w) = cancelled w"
  by (simp_all add: wire_def fold_log_frame)

lemma authorize_undisturbed:
  assumes "during_auth e = []"
  shows "running (snd (authorize a e w)) = [(GatewayT, SinksCtx)]"
proof -
  define a1 where "a1 = fst (make_contexts (a, w))"
  define w1 where "w1 = snd (make_contexts (a, w))"
  define w4 where "w4 = eg_Go GatewayT (Gateway a1) SinksCtx (eg_WithContext AllCtx (wire a1 w1))"
  have c: "SinksCtx \<notin> cancelled w4"
    using cancelled_make_contexts [of a w]
    by (auto simp: w4_def eg_Go_def log_def eg_WithContext_def WithCancel_def w1_def
          running_wire split: if_splits)
  have r: "running w4 = [(GatewayT, SinksCtx)]"
    by (simp add: w4_def eg_Go_def log_def eg_WithContext_def)
  have "find (releasable e w4) (running w4) = None"
    using c by (simp add: r releasable_def split: behaviour.splits)
  then have "drain e w4 = w4"
    by (subst drain.simps) simp
  then have "authorize a e w =
      (a1, log (WaitAuthorization (Gateway a1) AuthorizationTimeoutDuration (auth e)) w4)"
    using assms by (simp add: authorize_def Let_def split_beta a1_def w1_def w4_def)
  then show ?thesis by (simp add: r log_def)
qed

text \<open>
  C4, as amended. In every run in which WaitAuthorization returns an error, Start
  returns that error, and the deferred cancel of the root context is the last thing it
  does. Start does not wait for the Gateway task: eg.Wait is not called, returning leaves
  the goroutines of the group as they are, and when nothing happened while Start was
  blocked in WaitAuthorization the Gateway's goroutine is still running when Start
  returns.
\<close>

theorem Start_authorization_error_no_wait:
  assumes "auth e = Some err"
  shows "fst (Start a e w) = Returned (Some err)
       \<and> AllCtx \<in> cancelled (snd (snd (Start a e w)))
       \<and> last (Start_events a e w) = Cancel AllCtx
       \<and> GroupWait \<notin> set (Start_events a e w)
       \<and> running (snd (snd (Start a e w))) = running (snd (authorize a e w))
       \<and> (during_auth e = [] \<longrightarrow>
            running (snd (snd (Start a e w))) = [(GatewayT, SinksCtx)])"
proof -
  obtain q1 q2 where q: "list_all quiet q1"
    and ev: "Start_events a e w =
       wiring a @ Go GatewayT (Gateway a) SinksCtx # q1
         @ WaitAuthorization (Gateway a) AuthorizationTimeoutDuration (auth e)
         # (case auth e of
              Some err \<Rightarrow> [Cancel AllCtx]
            | None \<Rightarrow> source_launches a @ GroupWait # q2)"
    using Start_events_shape [of a e w] by blast
  have s: "Start a e w =
      (Returned (Some err), fst (authorize a e w), do_cancel AllCtx (snd (authorize a e w)))"
    using assms by (simp add: Start_def split_beta)
  have g: "GroupWait \<notin> set (Start_events a e w)"
    using q assms by (auto simp: ev list_all_iff wiring_def dest: quiet_not_GroupWait)
  have l: "last (Start_events a e w) = Cancel AllCtx"
    using assms by (simp add: ev)
  have r: "running (snd (snd (Start a e w))) = running (snd (authorize a e w))"
    by (simp add: s do_cancel_def)
  show ?thesis
    using g l r authorize_undisturbed [of e a w] by (simp add: s) (simp add: do_cancel_def)
qed

theorem Start_authorization_error_no_wait_witness:
  "fst (Start agent0 env_auth_timeout world0) = Returned (Some ''authorization timeout'')
   \<and> AllCtx \<in> cancelled (snd (snd (Start agent0 env_auth_timeout world0)))
   \<and> GroupWait \<notin> set (Start_events agent0 env_auth_timeout world0)
   \<and> running (snd (snd (Start agent0 env_auth_timeout world0))) = [(GatewayT, SinksCtx)]"
proof -
  have h: "auth env_auth_timeout = Some ''authorization timeout''"
    "during_auth env_auth_timeout = []"
    by (simp_all add: env_auth_timeout_def)
  show ?thesis
    using h(2) Start_authorization_error_no_wait [OF h(1), of agent0 world0] by blast
qed

text \<open>
  C4 as stated fails: the authorization times out while the Gateway runs until its
  context is done. Start returns the error; the Gateway's goroutine has not returned,
  and Start has not waited for the group.
\<close>

theorem Start_waits_for_Gateway_counterexample:
  "fst (Start agent0 env_auth_timeout world0) = Returned (Some ''authorization timeout'')
   \<and> behaviour env_auth_timeout GatewayT = UntilDone None
   \<and> running (snd (snd (Start agent0 env_auth_timeout world0))) = [(GatewayT, SinksCtx)]
   \<and> Return GatewayT None \<notin> set (Start_events agent0 env_auth_timeout world0)
   \<and> GroupWait \<notin> set (Start_events agent0 env_auth_timeout world0)"
  by code_simp

subsection \<open>The first failure of a task\<close>

lemma first_error_append:
  "first_error (xs @ ys) = (case first_error xs of None \<Rightarrow> first_error ys | Some err \<Rightarrow> Some err)"
  by (induction xs rule: first_error.induct) simp_all

lemma group_inv_do_cancel: "group_inv n w \<Longrightarrow> group_inv n (do_cancel t w)"
  by (simp add: group_inv_def do_cancel_def first_error_append split: option.splits)

lemma group_inv_task_return: "group_inv n w \<Longrightarrow> group_inv n (task_return p r w)"
  by (cases r)
     (auto simp: group_inv_def task_return_def Let_def log_def do_cancel_def first_error_append
           split: option.splits)

lemma group_inv_drain: "group_inv n w \<Longrightarrow> group_inv n (drain e w)"
proof (induction e w rule: drain.induct)
  case (1 e w)
  show ?case
  proof (cases "find (releasable e w) (running w)")
    case None
    then have "drain e w = w" by (subst drain.simps) simp
    then show ?thesis using "1.prems" by simp
  next
    case (Some p)
    then have "drain e w = drain e (task_return p (result (behaviour e (fst p))) w)"
      by (subst drain.simps) simp
    then show ?thesis
      using "1.IH" [OF Some group_inv_task_return [OF "1.prems"]] by simp
  qed
qed

lemma group_inv_do_step: "group_inv n w \<Longrightarrow> group_inv n (snd (do_step e s (a, w)))"
  by (cases s)
     (auto simp: Stop_def stopSources_def stopSinks_def group_inv_do_cancel
                 group_inv_task_return split: option.splits behaviour.splits)

lemma group_inv_run_schedule:
  "group_inv n w \<Longrightarrow> group_inv n (snd (run_schedule e ss (a, w)))"
proof (induction ss arbitrary: a w)
  case Nil
  then show ?case by (simp add: group_inv_drain)
next
  case (Cons s ss)
  obtain a' w' where st: "do_step e s (a, drain e w) = (a', w')"
    by (cases "do_step e s (a, drain e w)")
  have "group_inv n w'"
    using group_inv_do_step [OF group_inv_drain [OF Cons.prems, of e], of e s a]
    by (simp add: st)
  then have "group_inv n (snd (run_schedule e ss (a', w')))" by (rule Cons.IH)
  then show ?case by (simp add: st)
qed

lemma group_inv_log: "group_inv n w \<Longrightarrow> first_error [ev] = None \<Longrightarrow> group_inv n (log ev w)"
  by (simp add: group_inv_def log_def first_error_append split: option.splits)

lemma group_inv_eg_Go: "group_inv n w \<Longrightarrow> group_inv n (eg_Go t r c w)"
  by (simp add: group_inv_def eg_Go_def log_def first_error_append split: option.splits)

lemma group_inv_launch_sources: "group_inv n w \<Longrightarrow> group_inv n (launch_sources a w)"
  by (simp add: launch_sources_def Let_def group_inv_eg_Go)

lemma group_inv_eg_WithContext: "group_inv (length (trace w)) (eg_WithContext p w)"
  by (simp add: group_inv_def eg_WithContext_def trace_WithCancel)

lemma group_inv_authorize:
  "group_inv (length (trace w) + length (wiring a)) (snd (authorize a e w))"
proof -
  define a1 where "a1 = fst (make_contexts (a, w))"
  define w1 where "w1 = snd (make_contexts (a, w))"
  define w2 where "w2 = wire a1 w1"
  define w4 where "w4 = eg_Go GatewayT (Gateway a1) SinksCtx (eg_WithContext AllCtx w2)"
  have c1: "config a1 = config a"
    using config_make_contexts [of "(a, w)"] by (simp add: a1_def)
  have "length (trace w2) = length (trace w) + length (wiring a)"
    using trace_make_contexts [of "(a, w)"] wiring_config [OF c1]
    by (simp add: w2_def wire_def trace_fold_log w1_def)
  then have "group_inv (length (trace w) + length (wiring a)) w4"
    using group_inv_eg_Go [OF group_inv_eg_WithContext [of w2 AllCtx]] by (simp add: w4_def)
  then have "group_inv (length (trace w) + length (wiring a))
      (snd (run_schedule e (during_auth e) (a1, w4)))"
    by (rule group_inv_run_schedule)
  then show ?thesis
    by (simp add: authorize_def Let_def split_beta a1_def w1_def w2_def w4_def group_inv_log)
qed

lemma first_error_wiring: "first_error (wiring a @ evs) = first_error evs"
  by (simp add: wiring_def)

text \<open>When the authorization has succeeded and Start returns, it returns the first
  error that a task returned (nil when none did): later errors are dropped.\<close>

lemma Start_returns_first_error:
  assumes "auth e = None" and "fst (Start a e w) = Returned r"
  shows "r = first_error (Start_events a e w)"
proof -
  define n where "n = length (trace w) + length (wiring a)"
  define a5 where "a5 = fst (authorize a e w)"
  define w7 where "w7 = log GroupWait (launch_sources a5 (snd (authorize a e w)))"
  define w8 where "w8 = snd (run_schedule e (schedule e) (a5, w7))"
  have "group_inv n w7"
    using group_inv_authorize [of w a e]
    by (simp add: w7_def n_def group_inv_log group_inv_launch_sources)
  then have i8: "group_inv n w8"
    unfolding w8_def by (rule group_inv_run_schedule)
  have st: "Start a e w =
      (if running w8 = [] then (Returned (eg_err w8), fst (run_schedule e (schedule e) (a5, w7)),
         do_cancel AllCtx (do_cancel GroupCtx w8))
       else (Blocked, fst (run_schedule e (schedule e) (a5, w7)), w8))"
    using assms(1)
    by (simp add: Start_def split_beta eg_Wait_def Let_def a5_def w7_def w8_def)
  then have r: "running w8 = []" "r = eg_err w8"
    using assms(2) by (auto split: if_splits)
  have "group_inv n (do_cancel AllCtx (do_cancel GroupCtx w8))"
    using i8 by (intro group_inv_do_cancel)
  then have "group_inv n (snd (snd (Start a e w)))"
    using r(1) by (simp add: st)
  then have "eg_err (snd (snd (Start a e w))) = first_error (drop n (trace (snd (snd (Start a e w)))))"
    by (simp add: group_inv_def)
  moreover have "eg_err (snd (snd (Start a e w))) = r"
    using r by (simp add: st do_cancel_def)
  moreover have "drop n (trace (snd (snd (Start a e w)))) = drop (length (wiring a)) (Start_events a e w)"
    by (simp add: Start_events_def n_def add.commute)
  moreover obtain rest where "Start_events a e w = wiring a @ rest"
    using Start_events_shape [of a e w] by blast
  ultimately show ?thesis
    by (simp add: first_error_wiring)
qed

text \<open>
  C1 at a run in which the entities source returns an error and every other task runs
  until its context is done. The errgroup keeps the error and cancels its own context,
  which no task was given: the root, sources and sinks contexts are not done, the four
  siblings keep running, and Start stays blocked in eg.Wait instead of returning the
  error.
\<close>

theorem Start_first_failure_cancels_no_sibling:
  "fst (Start agent0 env_entities_fail world0) = Blocked
   \<and> eg_err (snd (snd (Start agent0 env_entities_fail world0))) = Some ''watch failed''
   \<and> cancelled (snd (snd (Start agent0 env_entities_fail world0))) = {GroupCtx}
   \<and> running (snd (snd (Start agent0 env_entities_fail world0))) =
       [(GatewayT, SinksCtx), (MetricsSourceT, SourcesCtx), (AutomationExecutorT, SourcesCtx),
        (AuditorT, SourcesCtx)]
   \<and> filter quiet (Start_events agent0 env_entities_fail world0) =
       [Return EntitiesSourceT (Some ''watch failed''), Cancel GroupCtx]"
  by code_simp

subsection \<open>The Gateway and the sinks context\<close>

text \<open>
  C3 as stated fails: the Gateway is launched with the sinks context, not the root
  context. When stopSinks is called while Start waits for the group, the sinks context
  is done, the Gateway returns, and the sources go on with the sources context not
  done.
\<close>

theorem stopSinks_Gateway_counterexample:
  "filter is_Go (Start_events agent0 env_stop_sinks world0) =
     [Go GatewayT 4 SinksCtx, Go EntitiesSourceT 2 SourcesCtx, Go MetricsSourceT 1 SourcesCtx,
      Go AutomationExecutorT 3 SourcesCtx, Go AuditorT 6 SourcesCtx]
   \<and> filter quiet (Start_events agent0 env_stop_sinks world0) =
       [Cancel SinksCtx, Return GatewayT None]
   \<and> cancelled (snd (snd (Start agent0 env_stop_sinks world0))) = {SinksCtx}
   \<and> running (snd (snd (Start agent0 env_stop_sinks world0))) =
       [(EntitiesSourceT, SourcesCtx), (MetricsSourceT, SourcesCtx),
        (AutomationExecutorT, SourcesCtx), (AuditorT, SourcesCtx)]"
  by code_simp


lemma drain_settled: "find (releasable e (drain e w)) (running (drain e w)) = None"
proof (induction e w rule: drain.induct)
  case (1 e w)
  show ?case
  proof (cases "find (releasable e w) (running w)")
    case None
    then have "drain e w = w" by (subst drain.simps) simp
    then show ?thesis using None by simp
  next
    case (Some p)
    then have "drain e w = drain e (task_return p (result (behaviour e (fst p))) w)"
      by (subst drain.simps) simp
    then show ?thesis using "1.IH" [OF Some] by simp
  qed
qed

lemma cancelled_task_return: "cancelled w \<subseteq> cancelled (task_return p r w)"
  by (auto simp: task_return_def Let_def log_def do_cancel_def)

lemma cancelled_drain: "cancelled w \<subseteq> cancelled (drain e w)"
proof (induction e w rule: drain.induct)
  case (1 e w)
  show ?case
  proof (cases "find (releasable e w) (running w)")
    case None
    then have "drain e w = w" by (subst drain.simps) simp
    then show ?thesis by simp
  next
    case (Some p)
    then have "drain e w = drain e (task_return p (result (behaviour e (fst p))) w)"
      by (subst drain.simps) simp
    then show ?thesis
      using "1.IH" [OF Some] cancelled_task_return [of w p "result (behaviour e (fst p))"]
      by auto
  qed
qed

lemma drain_releases:
  assumes "behaviour e t = UntilDone r" and "c \<in> cancelled w"
  shows "(t, c) \<notin> set (running (drain e w))"
proof
  assume "(t, c) \<in> set (running (drain e w))"
  moreover have "releasable e (drain e w) (t, c)"
    using assms cancelled_drain [of w e] by (auto simp: releasable_def)
  ultimately have "find (releasable e (drain e w)) (running (drain e w)) \<noteq> None"
    by (auto simp: find_None_iff)
  then show False by (simp add: drain_settled)
qed

text \<open>
  C3, as amended. In every run of Start the Gateway is launched once, with the sinks
  context, and Start stores the cancel function of the sinks context in the agent.
  stopSinks on an agent that holds it returns nil and cancels the sinks context only:
  the root and the sources contexts, their cancel functions and the goroutines of the
  sources are as before, while the context of the Gateway's task is done, so that a
  Gateway that runs until its context is done returns.
\<close>

theorem Gateway_under_sinks_stopSinks:
  "filter (\<lambda>ev. is_Go ev \<and> \<not> is_source_Go ev) (Start_events a e w) =
     [Go GatewayT (Gateway a) SinksCtx]
   \<and> cancelSinks (fst (make_contexts (a, w))) = Some SinksCtx
   \<and> (cancelSinks a = Some SinksCtx \<longrightarrow>
        fst (stopSinks a w) = None
        \<and> cancelled (snd (snd (stopSinks a w))) = insert SinksCtx (cancelled w)
        \<and> cancelAll (fst (snd (stopSinks a w))) = cancelAll a
        \<and> cancelSources (fst (snd (stopSinks a w))) = cancelSources a
        \<and> running (snd (snd (stopSinks a w))) = running w
        \<and> (behaviour e GatewayT = UntilDone r \<longrightarrow>
             (GatewayT, SinksCtx) \<notin> set (running (drain e (snd (snd (stopSinks a w)))))))"
proof -
  obtain q1 q2 where q: "list_all quiet q1" "list_all quiet q2"
    and ev: "Start_events a e w =
       wiring a @ Go GatewayT (Gateway a) SinksCtx # q1
         @ WaitAuthorization (Gateway a) AuthorizationTimeoutDuration (auth e)
         # (case auth e of
              Some err \<Rightarrow> [Cancel AllCtx]
            | None \<Rightarrow> source_launches a @ GroupWait # q2)"
    using Start_events_shape [of a e w] by blast
  let ?P = "\<lambda>ev. is_Go ev \<and> \<not> is_source_Go ev"
  have f: "filter ?P q1 = []" "filter ?P q2 = []" "filter ?P (wiring a) = []"
    "filter ?P (source_launches a) = []"
    using q by (auto simp: list_all_iff quiet_not_Go wiring_def source_launches_def)
  have c1: "filter ?P (Start_events a e w) = [Go GatewayT (Gateway a) SinksCtx]"
    by (simp add: ev f split: option.splits)
  have c2: "cancelSinks (fst (make_contexts (a, w))) = Some SinksCtx"
    by (simp add: make_contexts_def Let_def)
  have c3: "(GatewayT, SinksCtx) \<notin> set (running (drain e (snd (snd (stopSinks a w)))))"
    if "cancelSinks a = Some SinksCtx" "behaviour e GatewayT = UntilDone r"
    using that by (intro drain_releases [of e GatewayT r]) (simp_all add: stopSinks_def do_cancel_def)
  have c4: "fst (stopSinks a w) = None
        \<and> cancelled (snd (snd (stopSinks a w))) = insert SinksCtx (cancelled w)
        \<and> cancelAll (fst (snd (stopSinks a w))) = cancelAll a
        \<and> cancelSources (fst (snd (stopSinks a w))) = cancelSources a
        \<and> running (snd (snd (stopSinks a w))) = running w"
    if "cancelSinks a = Some SinksCtx"
    using that by (simp add: stopSinks_def do_cancel_def)
  show ?thesis using c1 c2 c3 c4 by blast
qed

theorem Gateway_under_sinks_stopSinks_witness:
  "filter (\<lambda>ev. is_Go ev \<and> \<not> is_source_Go ev) (Start_events agent0 env_stop_sinks world0) =
     [Go GatewayT 4 SinksCtx]
   \<and> cancelled (snd (snd (stopSinks (fst (make_contexts (agent0, world0))) world0))) = {SinksCtx}
   \<and> (GatewayT, SinksCtx) \<notin> set (running (drain env_stop_sinks
         (snd (snd (stopSinks (fst (make_contexts (agent0, world0))) world0)))))"
proof -
  have h: "cancelSinks (fst (make_contexts (agent0, world0))) = Some SinksCtx"
    by (simp add: make_contexts_def Let_def)
  have b: "behaviour env_stop_sinks GatewayT = UntilDone None"
    by (simp add: env_stop_sinks_def)
  have g: "Gateway agent0 = 4"
    by (simp add: agent0_def New_def)
  have c: "cancelled world0 = {}"
    by (simp add: world0_def)
  show ?thesis
    using h b g c Gateway_under_sinks_stopSinks [of agent0 env_stop_sinks world0 None]
      Gateway_under_sinks_stopSinks [of "fst (make_contexts (agent0, world0))" env_stop_sinks
        world0 None]
    by simp
qed

end
